theory Spec2Isabelle
  imports Main
begin

text \<open>
  A shallow embedding of SocketStream: the signalling server (matchmaking queue, relay,
  withdrawal), the agent adapter with its retry loop, and the two parts of the client
  that the properties below depend on, the connection state machine of \<^verbatim>\<open>useWebRTC\<close>
  and the entry of interest tags. Socket ids, room names and tags are strings. What
  socket.io does (rooms, addressing of emits, dispatch of events) is modelled as far as
  the handlers rely on it.
\<close>

section \<open>Shared types (shared/index.ts)\<close>

datatype UserMode = Human | Ai

record ChatRequest =
  mode :: UserMode
  interests :: "string list"

datatype Sender = Me | Peer | System | AiSender

record ChatMessage =
  id_msg :: string
  sender :: Sender
  text_msg :: string
  timestamp :: nat

record ChatInstance =
  roomId :: string
  peerId :: string
  isAi :: bool

text \<open>The payload of \<^verbatim>\<open>match_found\<close> is \<^verbatim>\<open>{ ...chatData, initiator }\<close>.\<close>

record MatchFound = ChatInstance +
  initiator :: bool

section \<open>The signalling server\<close>

subsection \<open>State\<close>

text \<open>An entry of the matchmaking queue (\<^verbatim>\<open>interface QueuedUser\<close>).\<close>

record QueuedUser =
  id_user :: string
  interests_user :: "string list"

text \<open>The events the server emits to clients; a signalling payload is opaque.\<close>

datatype 'sig ServerEvent =
    match_found MatchFound
  | waiting_in_queue
  | signal_received 'sig string
  | peer_disconnected
  | receive_message ChatMessage

text \<open>
  The three ways the server addresses an emit: \<^verbatim>\<open>socket.emit\<close> (the socket itself),
  \<^verbatim>\<open>io.to(room).emit\<close> (every socket in the room) and \<^verbatim>\<open>socket.to(room).emit\<close>
  (every socket in the room except the sender).
\<close>

datatype Target = ToSocket string | ToRoom string | ToRoomExcept string string

text \<open>
  An emit is logged with the room membership at the moment it is issued, which is what
  decides who receives it.
\<close>

record 'sig Emission =
  target :: Target
  payload :: "'sig ServerEvent"
  members :: "string \<rightharpoonup> string list"

text \<open>
  \<open>waitingQueue\<close> is the global array of the server. \<open>sockets\<close> is \<^verbatim>\<open>io.sockets.sockets\<close>:
  the connected sockets, each with its \<^verbatim>\<open>socket.rooms\<close> in insertion order; a socket that
  is not connected has no entry. \<open>emitted\<close> is the log of all emits so far.
\<close>

record 'sig Server =
  waitingQueue :: "QueuedUser list"
  sockets :: "string \<rightharpoonup> string list"
  emitted :: "'sig Emission list"

definition initial :: "'sig Server" where
  "initial = \<lparr>waitingQueue = [], sockets = Map.empty, emitted = []\<rparr>"

subsection \<open>The socket.io primitives the handlers call\<close>

definition emit :: "Target \<Rightarrow> 'sig ServerEvent \<Rightarrow> 'sig Server \<Rightarrow> 'sig Server" where
  "emit t ev s =
     s\<lparr>emitted := emitted s @ [\<lparr>target = t, payload = ev, members = sockets s\<rparr>]\<rparr>"

text \<open>\<^verbatim>\<open>socket.join(room)\<close>: \<^verbatim>\<open>socket.rooms\<close> is a set, so joining twice adds nothing.\<close>

definition socket_join :: "string \<Rightarrow> string \<Rightarrow> 'sig Server \<Rightarrow> 'sig Server" where
  "socket_join sid room s =
     (case sockets s sid of
        None \<Rightarrow> s
      | Some rs \<Rightarrow>
          s\<lparr>sockets := (sockets s)(sid \<mapsto> (if room \<in> set rs then rs else rs @ [room]))\<rparr>)"

definition socket_leave :: "string \<Rightarrow> string \<Rightarrow> 'sig Server \<Rightarrow> 'sig Server" where
  "socket_leave sid room s =
     (case sockets s sid of
        None \<Rightarrow> s
      | Some rs \<Rightarrow> s\<lparr>sockets := (sockets s)(sid \<mapsto> filter (\<lambda>r. r \<noteq> room) rs)\<rparr>)"

text \<open>\<^verbatim>\<open>socket.rooms\<close> of a socket; empty once the socket is gone.\<close>

definition socket_rooms :: "'sig Server \<Rightarrow> string \<Rightarrow> string list" where
  "socket_rooms s sid = (case sockets s sid of None \<Rightarrow> [] | Some rs \<Rightarrow> rs)"

text \<open>Who receives an emission, and what a client has received so far.\<close>

definition in_room :: "(string \<rightharpoonup> string list) \<Rightarrow> string \<Rightarrow> string \<Rightarrow> bool" where
  "in_room m room q = (case m q of None \<Rightarrow> False | Some rs \<Rightarrow> room \<in> set rs)"

fun receives :: "(string \<rightharpoonup> string list) \<Rightarrow> Target \<Rightarrow> string \<Rightarrow> bool" where
  "receives m (ToSocket p) q = (q = p \<and> m q \<noteq> None)"
| "receives m (ToRoom room) q = in_room m room q"
| "receives m (ToRoomExcept room p) q = (q \<noteq> p \<and> in_room m room q)"

definition inbox :: "'sig Server \<Rightarrow> string \<Rightarrow> 'sig ServerEvent list" where
  "inbox s q = map payload (filter (\<lambda>e. receives (members e) (target e) q) (emitted s))"

text \<open>The emit calls alone, without the membership snapshots.\<close>

definition calls :: "'sig Server \<Rightarrow> (Target \<times> 'sig ServerEvent) list" where
  "calls s = map (\<lambda>e. (target e, payload e)) (emitted s)"

subsection \<open>Matchmaking: the \<^verbatim>\<open>join_mode\<close> handler\<close>

text \<open>\<^verbatim>\<open>userTags.some(tag => potentialMatch.interests.includes(tag))\<close>\<close>

definition hasCommonTag :: "string list \<Rightarrow> QueuedUser \<Rightarrow> bool" where
  "hasCommonTag userTags potentialMatch =
     list_ex (\<lambda>tag. tag \<in> set (interests_user potentialMatch)) userTags"

text \<open>
  The linear scan \<^verbatim>\<open>for (let i = 0; i < waitingQueue.length; i++)\<close>; the result is
  \<open>matchedIndex\<close>, \<open>-1\<close> when the loop ends without a \<^verbatim>\<open>break\<close>. An element of the array
  is an object, so the guard \<^verbatim>\<open>if (potentialMatch)\<close> always holds.
\<close>

function findMatch :: "string list \<Rightarrow> QueuedUser list \<Rightarrow> nat \<Rightarrow> int" where
  "findMatch userTags queue i =
     (if i < length queue then
        (let potentialMatch = queue ! i in
         if length userTags = 0 \<and> length (interests_user potentialMatch) = 0 then int i
         else if length userTags > 0 \<and> length (interests_user potentialMatch) > 0
                 \<and> hasCommonTag userTags potentialMatch then int i
         else findMatch userTags queue (i + 1))
      else - 1)"
  by pat_completeness auto
termination
  by (relation "measure (\<lambda>(userTags, queue, i). length queue - i)") auto

declare findMatch.simps [simp del]

text \<open>
  The handler. \<^verbatim>\<open>waitingQueue.splice(matchedIndex, 1)[0]\<close> removes the entry at
  \<open>matchedIndex\<close> and yields it, or \<^verbatim>\<open>undefined\<close> beyond the end of the array, in which
  case \<open>partnerId\<close> is the empty string.
\<close>

definition join_mode :: "string \<Rightarrow> ChatRequest \<Rightarrow> 'sig Server \<Rightarrow> 'sig Server" where
  "join_mode sid request s0 =
     (let s = s0\<lparr>waitingQueue := filter (\<lambda>user. id_user user \<noteq> sid) (waitingQueue s0)\<rparr> in
      if mode request = Ai then
        emit (ToSocket sid)
          (match_found \<lparr>roomId = ''ai_'' @ sid, peerId = ''ai-agent'', isAi = True,
                        initiator = True\<rparr>) s
      else
        (let userTags = interests request;
             matchedIndex = findMatch userTags (waitingQueue s) 0 in
         if matchedIndex \<noteq> - 1 then
           (let partner = (if nat matchedIndex < length (waitingQueue s)
                           then Some (waitingQueue s ! nat matchedIndex) else None);
                s1 = s\<lparr>waitingQueue := take (nat matchedIndex) (waitingQueue s)
                                         @ drop (nat matchedIndex + 1) (waitingQueue s)\<rparr>;
                partnerId = (case partner of Some user \<Rightarrow> id_user user | None \<Rightarrow> []);
                roomId = ''room_'' @ partnerId @ ''_'' @ sid;
                s2 = socket_join sid roomId s1;
                s3 = socket_join partnerId roomId s2;
                s4 = emit (ToRoom partnerId)
                       (match_found \<lparr>roomId = roomId, peerId = sid, isAi = False,
                                     initiator = True\<rparr>) s3
            in emit (ToSocket sid)
                 (match_found \<lparr>roomId = roomId, peerId = partnerId, isAi = False,
                               initiator = False\<rparr>) s4)
         else
           emit (ToSocket sid) waiting_in_queue
             (s\<lparr>waitingQueue := waitingQueue s @ [\<lparr>id_user = sid, interests_user = userTags\<rparr>]\<rparr>)))"

subsection \<open>Relay and withdrawal handlers\<close>

record 'sig SignalData =
  target_data :: string
  signal_data :: 'sig

text \<open>The \<^verbatim>\<open>signal\<close> handler relays the payload, tagged with the sender.\<close>

definition signal :: "string \<Rightarrow> 'sig SignalData \<Rightarrow> 'sig Server \<Rightarrow> 'sig Server" where
  "signal sid data s =
     emit (ToRoom (target_data data)) (signal_received (signal_data data) sid) s"

text \<open>
  \<^verbatim>\<open>leave_chat\<close>: \<^verbatim>\<open>socket.rooms.forEach\<close> visits every room the socket was in when the
  handler started; a room left during the iteration is one already visited.
\<close>

definition leave_chat :: "string \<Rightarrow> 'sig Server \<Rightarrow> 'sig Server" where
  "leave_chat sid s0 =
     (let s = s0\<lparr>waitingQueue := filter (\<lambda>user. id_user user \<noteq> sid) (waitingQueue s0)\<rparr> in
      fold (\<lambda>room s'.
              if room \<noteq> sid
              then socket_leave sid room (emit (ToRoomExcept room sid) peer_disconnected s')
              else s')
           (socket_rooms s sid) s)"

text \<open>\<^verbatim>\<open>disconnecting\<close>: the same, but the handler itself leaves no room.\<close>

definition disconnecting :: "string \<Rightarrow> 'sig Server \<Rightarrow> 'sig Server" where
  "disconnecting sid s0 =
     (let s = s0\<lparr>waitingQueue := filter (\<lambda>user. id_user user \<noteq> sid) (waitingQueue s0)\<rparr> in
      fold (\<lambda>room s'.
              if room \<noteq> sid
              then emit (ToRoomExcept room sid) peer_disconnected s'
              else s')
           (socket_rooms s sid) s)"

subsection \<open>Event dispatch\<close>

text \<open>
  What socket.io does around the handlers. A new socket is registered and joins the room
  named by its own id. The handlers are installed per connected socket, so an event of a
  socket that is not connected reaches no handler. When a socket closes, socket.io fires
  \<^verbatim>\<open>disconnecting\<close> while \<^verbatim>\<open>socket.rooms\<close> is still populated, then removes the socket
  from every room and from \<^verbatim>\<open>io.sockets.sockets\<close>.
\<close>

datatype 'sig Event =
    Connection string
  | JoinMode string ChatRequest
  | Signal string "'sig SignalData"
  | LeaveChat string
  | Disconnect string

fun step :: "'sig Event \<Rightarrow> 'sig Server \<Rightarrow> 'sig Server" where
  "step (Connection sid) s =
     (if sockets s sid = None then s\<lparr>sockets := (sockets s)(sid \<mapsto> [sid])\<rparr> else s)"
| "step (JoinMode sid request) s =
     (if sockets s sid = None then s else join_mode sid request s)"
| "step (Signal sid data) s =
     (if sockets s sid = None then s else signal sid data s)"
| "step (LeaveChat sid) s =
     (if sockets s sid = None then s else leave_chat sid s)"
| "step (Disconnect sid) s =
     (if sockets s sid = None then s
      else (let s' = disconnecting sid s in s'\<lparr>sockets := (sockets s')(sid := None)\<rparr>))"

text \<open>The server processes events one at a time, in order of arrival.\<close>

definition run :: "'sig Event list \<Rightarrow> 'sig Server \<Rightarrow> 'sig Server" where
  "run evs s = fold step evs s"

text \<open>The rooms of a socket other than its own: the sessions it is a member of.\<close>

definition sessions :: "'sig Server \<Rightarrow> string \<Rightarrow> string list" where
  "sessions s sid = filter (\<lambda>room. room \<noteq> sid) (socket_rooms s sid)"

text \<open>
  The discipline of the client (\<^verbatim>\<open>handleStop\<close>, \<^verbatim>\<open>handleNext\<close>): \<^verbatim>\<open>leave_chat\<close> is sent
  before a new \<^verbatim>\<open>join_mode\<close>, so a socket that asks to be matched is in no session.
\<close>

fun leaves_before_join :: "'sig Server \<Rightarrow> 'sig Event list \<Rightarrow> bool" where
  "leaves_before_join s [] = True"
| "leaves_before_join s (JoinMode sid request # evs) =
     (sessions s sid = [] \<and> leaves_before_join (step (JoinMode sid request) s) evs)"
| "leaves_before_join s (ev # evs) = leaves_before_join (step ev s) evs"

section \<open>The agent adapter (\<^verbatim>\<open>callGeminiRetry\<close>)\<close>

text \<open>
  A thrown value is known to the code only through \<^verbatim>\<open>error?.message\<close>. The backend call
  either resolves with a response whose \<^verbatim>\<open>text\<close> may be undefined, or rejects.
\<close>

datatype JsError = Error "string option"

fun message :: "JsError \<Rightarrow> string option" where
  "message (Error m) = m"

datatype Outcome = Resolves "string option" | Rejects JsError

text \<open>\<^verbatim>\<open>msg.includes(pat)\<close>: \<open>pat\<close> occurs in \<open>msg\<close> as a contiguous substring.\<close>

fun startsWith :: "string \<Rightarrow> string \<Rightarrow> bool" where
  "startsWith msg [] = True"
| "startsWith [] (p # ps) = False"
| "startsWith (c # cs) (p # ps) = (c = p \<and> startsWith cs ps)"

fun includes_str :: "string \<Rightarrow> string \<Rightarrow> bool" where
  "includes_str [] pat = (pat = [])"
| "includes_str (c # cs) pat = (startsWith (c # cs) pat \<or> includes_str cs pat)"

text \<open>
  One pass through the \<^verbatim>\<open>try\<close> block: the backend call for this attempt, then the check
  \<^verbatim>\<open>if (!res.text) throw new Error("Empty response")\<close>.
\<close>

definition tryGenerate :: "Outcome \<Rightarrow> JsError + string" where
  "tryGenerate outcome =
     (case outcome of
        Rejects error \<Rightarrow> Inl error
      | Resolves None \<Rightarrow> Inl (Error (Some ''Empty response''))
      | Resolves (Some t) \<Rightarrow> if t = [] then Inl (Error (Some ''Empty response'')) else Inr t)"

text \<open>
  The retry loop from a given \<open>attempt\<close>. The backend is opaque: \<open>backend history k\<close> is the
  outcome of the \<open>k\<close>-th call. \<open>waited\<close> collects the arguments of the \<^verbatim>\<open>setTimeout\<close> calls
  awaited so far. The result is what the promise settles with (\<open>Inl\<close>: rejected) and
  the delays waited.
\<close>

function callGeminiRetry_loop ::
  "('h list \<Rightarrow> nat \<Rightarrow> Outcome) \<Rightarrow> 'h list \<Rightarrow> nat \<Rightarrow> nat \<Rightarrow> nat \<Rightarrow> nat list
     \<Rightarrow> (JsError + string) \<times> nat list" where
  "callGeminiRetry_loop backend history retries delay attempt waited =
     (if attempt \<le> retries then
        (case tryGenerate (backend history attempt) of
           Inr t \<Rightarrow> (Inr t, waited)
         | Inl error \<Rightarrow>
             (let msg = (case message error of None \<Rightarrow> [] | Some m \<Rightarrow> m) in
              if attempt < retries
                 \<and> (includes_str msg ''503'' \<or> includes_str msg ''500'' \<or> includes_str msg ''429'')
              then callGeminiRetry_loop backend history retries delay (attempt + 1)
                     (waited @ [delay * 2 ^ attempt])
              else (Inl error, waited)))
      else (Inr (''I'' @ [CHR 0x27] @ ''m having trouble connecting to Gemini right now.''),
            waited))"
  by pat_completeness auto
termination
  by (relation "measure (\<lambda>(backend, history, retries, delay, attempt, waited).
                           Suc retries - attempt)") auto

declare callGeminiRetry_loop.simps [simp del]

definition callGeminiRetry ::
  "('h list \<Rightarrow> nat \<Rightarrow> Outcome) \<Rightarrow> 'h list \<Rightarrow> nat \<Rightarrow> nat
     \<Rightarrow> (JsError + string) \<times> nat list" where
  "callGeminiRetry backend history retries delay =
     callGeminiRetry_loop backend history retries delay 1 []"

text \<open>
  A backend that settles its \<open>k\<close>-th call with the \<open>k\<close>-th outcome of a script, and
  rejects without a message once the script is used up.
\<close>

definition scripted :: "Outcome list \<Rightarrow> 'h list \<Rightarrow> nat \<Rightarrow> Outcome" where
  "scripted outcomes history k =
     (if 1 \<le> k \<and> k \<le> length outcomes then outcomes ! (k - 1) else Rejects (Error None))"

subsection \<open>The caller: the \<^verbatim>\<open>send_message\<close> handler\<close>

record 'h MessageData =
  roomId_data :: string
  text_data :: string
  isAi_data :: bool
  history_data :: "'h list option"

text \<open>
  \<open>rnd\<close> stands for \<^verbatim>\<open>Math.random().toString(36).substring(7)\<close> and \<open>now\<close> for
  \<^verbatim>\<open>Date.now()\<close>. The adapter is called with its default arguments, 3 retries and a base
  delay of 1000 ms.
\<close>

definition send_message ::
  "('h list \<Rightarrow> nat \<Rightarrow> Outcome) \<Rightarrow> string \<Rightarrow> nat \<Rightarrow> string \<Rightarrow> 'h MessageData
     \<Rightarrow> 'sig Server \<Rightarrow> 'sig Server" where
  "send_message backend rnd now sid data s =
     (if isAi_data data then
        (case fst (callGeminiRetry backend
                     (case history_data data of None \<Rightarrow> [] | Some h \<Rightarrow> h) 3 1000) of
           Inr resText \<Rightarrow>
             emit (ToSocket sid)
               (receive_message \<lparr>id_msg = rnd, sender = AiSender, text_msg = resText,
                                 timestamp = now\<rparr>) s
         | Inl err \<Rightarrow>
             emit (ToSocket sid)
               (receive_message \<lparr>id_msg = ''error'', sender = System,
                                 text_msg = ''AI is currently offline'', timestamp = now\<rparr>) s)
      else
        emit (ToRoomExcept (roomId_data data) sid)
          (receive_message \<lparr>id_msg = rnd, sender = Peer, text_msg = text_data data,
                            timestamp = now\<rparr>) s)"

section \<open>The client\<close>

subsection \<open>The connection state machine (\<^verbatim>\<open>useWebRTC\<close>)\<close>

datatype ConnectionState = idle | connecting | connected | failed

text \<open>
  The negotiation capability (a \<^verbatim>\<open>simple-peer\<close> instance) is opaque: the model keeps the
  role it was created with, the payloads fed to it with \<^verbatim>\<open>peer.signal\<close>, and whether it
  was destroyed.
\<close>

record 'sig PeerInstance =
  initiator_peer :: bool
  signalled :: "'sig list"
  destroyed :: bool

text \<open>
  \<open>peer\<close> is the instance made by the last run of the main effect, the one the closures
  of that run hold; \<open>peerRef\<close> tells whether \<^verbatim>\<open>peerRef.current\<close> still points to it.
  \<open>listener\<close> is the \<open>chatData\<close> captured by the registered \<^verbatim>\<open>signal_received\<close> handler,
  \<open>None\<close> when no handler is registered.
\<close>

record ('sig, 'stream) WebRTC =
  peerStream :: "'stream option"
  connectionState :: ConnectionState
  peer :: "'sig PeerInstance option"
  peerRef :: bool
  listener :: "MatchFound option"

definition webrtc_initial :: "('sig, 'stream) WebRTC" where
  "webrtc_initial =
     \<lparr>peerStream = None, connectionState = idle, peer = None, peerRef = False,
      listener = None\<rparr>"

definition destroy :: "'sig PeerInstance option \<Rightarrow> 'sig PeerInstance option" where
  "destroy p = map_option (\<lambda>x. x\<lparr>destroyed := True\<rparr>) p"

text \<open>The effect on \<^verbatim>\<open>[isPeerDisconnected]\<close>.\<close>

definition peerDisconnectedEffect ::
  "bool \<Rightarrow> ('sig, 'stream) WebRTC \<Rightarrow> ('sig, 'stream) WebRTC" where
  "peerDisconnectedEffect isPeerDisconnected st =
     (if isPeerDisconnected \<and> peerRef st then
        st\<lparr>peer := destroy (peer st), peerRef := False, peerStream := None,
           connectionState := idle\<rparr>
      else st)"

text \<open>The main effect on \<^verbatim>\<open>[socket, myStream, chatData]\<close>, up to the returned cleanup.\<close>

definition mainEffect ::
  "MatchFound option \<Rightarrow> 'stream option \<Rightarrow> bool \<Rightarrow> ('sig, 'stream) WebRTC
     \<Rightarrow> ('sig, 'stream) WebRTC" where
  "mainEffect chatData myStream isPeerDisconnected st =
     (case chatData of
        None \<Rightarrow> st
      | Some cd \<Rightarrow>
          if myStream = None \<or> isPeerDisconnected then st
          else if peerRef st then st
          else st\<lparr>connectionState := connecting,
                  peer := Some \<lparr>initiator_peer = initiator cd, signalled = [],
                                destroyed = False\<rparr>,
                  listener := Some cd,
                  peerRef := True\<rparr>)"

text \<open>The cleanup returned by a run of the main effect that registered a handler.\<close>

definition cleanup :: "('sig, 'stream) WebRTC \<Rightarrow> ('sig, 'stream) WebRTC" where
  "cleanup st =
     (case listener st of
        None \<Rightarrow> st
      | Some cd \<Rightarrow>
          (let st1 = st\<lparr>listener := None\<rparr>;
               st2 = (if peerRef st1 then st1\<lparr>peer := destroy (peer st1), peerRef := False\<rparr>
                      else st1)
           in st2\<lparr>connectionState := idle, peerStream := None\<rparr>))"

text \<open>\<^verbatim>\<open>peer.on("stream")\<close> and \<^verbatim>\<open>peer.on("error")\<close>.\<close>

definition onStream :: "'stream \<Rightarrow> ('sig, 'stream) WebRTC \<Rightarrow> ('sig, 'stream) WebRTC" where
  "onStream remoteStream st =
     st\<lparr>peerStream := Some remoteStream, connectionState := connected\<rparr>"

definition onError :: "('sig, 'stream) WebRTC \<Rightarrow> ('sig, 'stream) WebRTC" where
  "onError st = st\<lparr>connectionState := failed\<rparr>"

record 'sig IncomingSignal =
  signal_in :: 'sig
  from_in :: string

text \<open>The closure \<open>handleIncomingSignal\<close> of a run with \<open>chatData\<close>.\<close>

definition handleIncomingSignal ::
  "MatchFound \<Rightarrow> 'sig IncomingSignal \<Rightarrow> ('sig, 'stream) WebRTC \<Rightarrow> ('sig, 'stream) WebRTC" where
  "handleIncomingSignal chatData data st =
     (if from_in data = peerId chatData then
        st\<lparr>peer := map_option (\<lambda>p. p\<lparr>signalled := signalled p @ [signal_in data]\<rparr>) (peer st)\<rparr>
      else st)"

text \<open>The socket delivers \<^verbatim>\<open>signal_received\<close> to the registered handler, if any.\<close>

definition on_signal_received ::
  "'sig IncomingSignal \<Rightarrow> ('sig, 'stream) WebRTC \<Rightarrow> ('sig, 'stream) WebRTC" where
  "on_signal_received data st =
     (case listener st of None \<Rightarrow> st | Some chatData \<Rightarrow> handleIncomingSignal chatData data st)"

subsection \<open>Entering interest tags (\<^verbatim>\<open>handleAddInterest\<close>)\<close>









text \<open>The sessions of \<open>p\<close> that \<open>q\<close> is a member of as well.\<close>

definition shared_sessions :: "'sig Server \<Rightarrow> string \<Rightarrow> string \<Rightarrow> string list" where
  "shared_sessions s p q = filter (\<lambda>room. in_room (sockets s) room q) (sessions s p)"

text \<open>No socket that waits in the queue is in a session.\<close>

definition waiting_idle :: "'sig Server \<Rightarrow> bool" where
  "waiting_idle s = (\<forall>u \<in> set (waitingQueue s). sessions s (id_user u) = [])"

text \<open>The tag rule in the words of the specification, on tag sets.\<close>

definition spec_compatible :: "string set \<Rightarrow> string set \<Rightarrow> bool" where
  "spec_compatible a b = ((a = {} \<and> b = {}) \<or> (a \<noteq> {} \<and> b \<noteq> {} \<and> a \<inter> b \<noteq> {}))"

section \<open>Properties\<close>

subsection \<open>The scan\<close>

lemma hasCommonTag_iff:
  "hasCommonTag userTags u \<longleftrightarrow> set userTags \<inter> set (interests_user u) \<noteq> {}"
  by (auto simp: hasCommonTag_def list_ex_iff)

text \<open>The two tests of the loop body together are the tag rule of the specification.\<close>

lemma loop_test_iff:
  "(length userTags = 0 \<and> length (interests_user u) = 0)
     \<or> (length userTags > 0 \<and> length (interests_user u) > 0 \<and> hasCommonTag userTags u)
   \<longleftrightarrow> spec_compatible (set userTags) (set (interests_user u))"
  by (auto simp: spec_compatible_def hasCommonTag_iff)

lemma findMatch_end: "\<not> i < length queue \<Longrightarrow> findMatch userTags queue i = - 1"
  by (subst findMatch.simps) simp

lemma findMatch_step:
  "i < length queue \<Longrightarrow>
   findMatch userTags queue i =
     (if spec_compatible (set userTags) (set (interests_user (queue ! i))) then int i
      else findMatch userTags queue (i + 1))"
  using loop_test_iff [of userTags "queue ! i"]
  by (subst findMatch.simps) (auto simp: Let_def)

lemma findMatch_miss:
  assumes "\<forall>u \<in> set (drop i queue). \<not> spec_compatible (set userTags) (set (interests_user u))"
  shows "findMatch userTags queue i = - 1"
  using assms
proof (induction userTags queue i rule: findMatch.induct)
  case (1 userTags queue i)
  show ?case
  proof (cases "i < length queue")
    case False
    then show ?thesis by (rule findMatch_end)
  next
    case True
    then have "queue ! i \<in> set (drop i queue)"
      by (metis Cons_nth_drop_Suc list.set_intros(1))
    with "1.prems" have no: "\<not> spec_compatible (set userTags) (set (interests_user (queue ! i)))"
      by blast
    have rest: "\<forall>u \<in> set (drop (i + 1) queue).
                  \<not> spec_compatible (set userTags) (set (interests_user u))"
      using "1.prems" by (metis Suc_eq_plus1 in_set_dropD drop_drop add.commute)
    have "findMatch userTags queue (i + 1) = - 1"
      using "1.IH" [OF True refl _ _ rest] no loop_test_iff [of userTags "queue ! i"] by blast
    then show ?thesis
      using True no by (simp add: findMatch_step)
  qed
qed

lemma findMatch_hit:
  assumes "queue = older @ u # newer"
    and "i \<le> length older"
    and "\<forall>x \<in> set (drop i older). \<not> spec_compatible (set userTags) (set (interests_user x))"
    and "spec_compatible (set userTags) (set (interests_user u))"
  shows "findMatch userTags queue i = int (length older)"
  using assms
proof (induction userTags queue i rule: findMatch.induct)
  case (1 userTags queue i)
  have len: "i < length queue" using "1.prems" by simp
  show ?case
  proof (cases "i = length older")
    case True
    then have "queue ! i = u" using "1.prems"(1) by simp
    then show ?thesis
      using len True "1.prems"(4) by (simp add: findMatch_step)
  next
    case False
    then have lt: "i < length older" using "1.prems"(2) by simp
    then have qi: "queue ! i = older ! i" using "1.prems"(1) by (simp add: nth_append)
    have "older ! i \<in> set (drop i older)"
      using lt by (metis Cons_nth_drop_Suc list.set_intros(1))
    then have no: "\<not> spec_compatible (set userTags) (set (interests_user (queue ! i)))"
      using "1.prems"(3) qi by simp
    have rest: "\<forall>x \<in> set (drop (i + 1) older).
                  \<not> spec_compatible (set userTags) (set (interests_user x))"
      using "1.prems"(3) by (metis Suc_eq_plus1 in_set_dropD drop_drop add.commute)
    have "findMatch userTags queue (i + 1) = int (length older)"
      using "1.IH" [OF len refl _ _ "1.prems"(1) _ rest "1.prems"(4)] no lt
        loop_test_iff [of userTags "queue ! i"] by auto
    then show ?thesis
      using len no by (simp add: findMatch_step)
  qed
qed

text \<open>Either no waiting entry is compatible, or the scan stops at the oldest one that is.\<close>

lemma findMatch_cases:
  obtains (miss) "\<forall>u \<in> set queue. \<not> spec_compatible (set userTags) (set (interests_user u))"
      "findMatch userTags queue 0 = - 1"
  | (hit) older u newer where "queue = older @ u # newer"
      "\<forall>x \<in> set older. \<not> spec_compatible (set userTags) (set (interests_user x))"
      "spec_compatible (set userTags) (set (interests_user u))"
      "findMatch userTags queue 0 = int (length older)"
proof (cases "\<exists>u \<in> set queue. spec_compatible (set userTags) (set (interests_user u))")
  case False
  then show ?thesis using miss findMatch_miss [of 0 queue userTags] by simp
next
  case True
  then obtain older u newer where split: "queue = older @ u # newer"
      "spec_compatible (set userTags) (set (interests_user u))"
      "\<forall>x \<in> set older. \<not> spec_compatible (set userTags) (set (interests_user x))"
    using split_list_first_prop [of queue "\<lambda>u. spec_compatible (set userTags) (set (interests_user u))"]
    by blast
  then show ?thesis using hit findMatch_hit [of queue older u newer 0 userTags] by simp
qed

subsection \<open>The three outcomes of \<open>join_mode\<close>\<close>

lemma join_mode_ai:
  "mode request = Ai \<Longrightarrow>
   join_mode sid request s =
     emit (ToSocket sid)
       (match_found \<lparr>roomId = ''ai_'' @ sid, peerId = ''ai-agent'', isAi = True,
                     initiator = True\<rparr>)
       (s\<lparr>waitingQueue := filter (\<lambda>user. id_user user \<noteq> sid) (waitingQueue s)\<rparr>)"
  by (simp add: join_mode_def)

lemma join_mode_miss:
  assumes "mode request = Human"
    and "\<forall>u \<in> set (filter (\<lambda>user. id_user user \<noteq> sid) (waitingQueue s)).
           \<not> spec_compatible (set (interests request)) (set (interests_user u))"
  shows "join_mode sid request s =
     emit (ToSocket sid) waiting_in_queue
       (s\<lparr>waitingQueue := filter (\<lambda>user. id_user user \<noteq> sid) (waitingQueue s)
                            @ [\<lparr>id_user = sid, interests_user = interests request\<rparr>]\<rparr>)"
proof -
  have "findMatch (interests request)
          (filter (\<lambda>user. id_user user \<noteq> sid) (waitingQueue s)) 0 = - 1"
    using assms(2) by (intro findMatch_miss) simp
  then show ?thesis using assms(1) by (simp add: join_mode_def)
qed

lemma join_mode_hit:
  assumes "mode request = Human"
    and "filter (\<lambda>user. id_user user \<noteq> sid) (waitingQueue s) = older @ u # newer"
    and "\<forall>x \<in> set older. \<not> spec_compatible (set (interests request)) (set (interests_user x))"
    and "spec_compatible (set (interests request)) (set (interests_user u))"
  shows "join_mode sid request s =
     emit (ToSocket sid)
       (match_found \<lparr>roomId = ''room_'' @ id_user u @ ''_'' @ sid, peerId = id_user u,
                     isAi = False, initiator = False\<rparr>)
       (emit (ToRoom (id_user u))
          (match_found \<lparr>roomId = ''room_'' @ id_user u @ ''_'' @ sid, peerId = sid,
                        isAi = False, initiator = True\<rparr>)
          (socket_join (id_user u) (''room_'' @ id_user u @ ''_'' @ sid)
             (socket_join sid (''room_'' @ id_user u @ ''_'' @ sid)
                (s\<lparr>waitingQueue := older @ newer\<rparr>))))"
proof -
  have "findMatch (interests request)
          (filter (\<lambda>user. id_user user \<noteq> sid) (waitingQueue s)) 0 = int (length older)"
    using assms(2-4) by (intro findMatch_hit [where newer = newer and u = u]) simp_all
  then show ?thesis using assms(1,2) by (simp add: join_mode_def Let_def)
qed

lemma calls_emit [simp]: "calls (emit t ev s) = calls s @ [(t, ev)]"
  by (simp add: calls_def emit_def)

lemma calls_socket_join [simp]: "calls (socket_join sid room s) = calls s"
  by (simp add: calls_def socket_join_def split: option.split)

lemma calls_waitingQueue_update [simp]: "calls (s\<lparr>waitingQueue := q\<rparr>) = calls s"
  by (simp add: calls_def)

lemma spec_compatible_empty_iff:
  "spec_compatible (set xs) (set ys) \<Longrightarrow> xs = [] \<longleftrightarrow> ys = []"
  by (auto simp: spec_compatible_def)

text \<open>
  C1 (tag correctness). A human-mode request is matched with a waiting entry exactly when
  some waiting entry other than the requester's own is compatible under the tag rule of
  the specification, and the entry it is matched with is compatible: both tag lists are
  empty, or neither is and they share a tag. Otherwise the request is queued.
\<close>

theorem join_mode_tag_correctness:
  "mode request = Human \<Longrightarrow>
   (let pool = filter (\<lambda>user. id_user user \<noteq> sid) (waitingQueue s);
        tags = set (interests request)
    in if \<exists>u \<in> set pool. spec_compatible tags (set (interests_user u))
       then \<exists>u \<in> set pool.
              spec_compatible tags (set (interests_user u))
              \<and> (interests request = [] \<longleftrightarrow> interests_user u = [])
              \<and> calls (join_mode sid request s) =
                  calls s @
                  [(ToRoom (id_user u),
                    match_found \<lparr>roomId = ''room_'' @ id_user u @ ''_'' @ sid, peerId = sid,
                                  isAi = False, initiator = True\<rparr>),
                   (ToSocket sid,
                    match_found \<lparr>roomId = ''room_'' @ id_user u @ ''_'' @ sid,
                                  peerId = id_user u, isAi = False, initiator = False\<rparr>)]
       else calls (join_mode sid request s) = calls s @ [(ToSocket sid, waiting_in_queue)])"
proof -
  assume human: "mode request = Human"
  define pool where "pool = filter (\<lambda>user. id_user user \<noteq> sid) (waitingQueue s)"
  show ?thesis
  proof (cases rule: findMatch_cases [of pool "interests request"])
    case miss
    then have "join_mode sid request s =
        emit (ToSocket sid) waiting_in_queue
          (s\<lparr>waitingQueue := pool @ [\<lparr>id_user = sid, interests_user = interests request\<rparr>]\<rparr>)"
      unfolding pool_def using human by (intro join_mode_miss) simp_all
    then show ?thesis using miss(1) by (simp add: pool_def Let_def)
  next
    case (hit older u newer)
    have "join_mode sid request s =
        emit (ToSocket sid)
          (match_found \<lparr>roomId = ''room_'' @ id_user u @ ''_'' @ sid, peerId = id_user u,
                        isAi = False, initiator = False\<rparr>)
          (emit (ToRoom (id_user u))
             (match_found \<lparr>roomId = ''room_'' @ id_user u @ ''_'' @ sid, peerId = sid,
                           isAi = False, initiator = True\<rparr>)
             (socket_join (id_user u) (''room_'' @ id_user u @ ''_'' @ sid)
                (socket_join sid (''room_'' @ id_user u @ ''_'' @ sid)
                   (s\<lparr>waitingQueue := older @ newer\<rparr>))))"
      using human hit(1-3) unfolding pool_def by (rule join_mode_hit)
    moreover have "u \<in> set pool" using hit(1) by simp
    moreover have "interests request = [] \<longleftrightarrow> interests_user u = []"
      using hit(3) by (rule spec_compatible_empty_iff)
    ultimately have "\<exists>u \<in> set pool.
        spec_compatible (set (interests request)) (set (interests_user u))
        \<and> (interests request = [] \<longleftrightarrow> interests_user u = [])
        \<and> calls (join_mode sid request s) =
            calls s @
            [(ToRoom (id_user u),
              match_found \<lparr>roomId = ''room_'' @ id_user u @ ''_'' @ sid, peerId = sid,
                            isAi = False, initiator = True\<rparr>),
             (ToSocket sid,
              match_found \<lparr>roomId = ''room_'' @ id_user u @ ''_'' @ sid,
                            peerId = id_user u, isAi = False, initiator = False\<rparr>)]"
      using hit(3) by (intro bexI [of _ u]) simp_all
    then show ?thesis unfolding Let_def pool_def [symmetric] by auto
  qed
qed

theorem join_mode_tag_correctness_witness:
  "calls (join_mode ''c'' \<lparr>mode = Human, interests = [''music'', ''travel'']\<rparr>
            \<lparr>waitingQueue = [\<lparr>id_user = ''a'', interests_user = []\<rparr>,
                              \<lparr>id_user = ''b'', interests_user = [''sports'']\<rparr>,
                              \<lparr>id_user = ''d'', interests_user = [''music'']\<rparr>],
             sockets = Map.empty, emitted = ([] :: unit Emission list)\<rparr>) =
     [(ToRoom ''d'',
       match_found \<lparr>roomId = ''room_d_c'', peerId = ''c'', isAi = False, initiator = True\<rparr>),
      (ToSocket ''c'',
       match_found \<lparr>roomId = ''room_d_c'', peerId = ''d'', isAi = False, initiator = False\<rparr>)]"
  using join_mode_tag_correctness
    [of "\<lparr>mode = Human, interests = [''music'', ''travel'']\<rparr>" "''c''"
        "\<lparr>waitingQueue = [\<lparr>id_user = ''a'', interests_user = []\<rparr>,
                           \<lparr>id_user = ''b'', interests_user = [''sports'']\<rparr>,
                           \<lparr>id_user = ''d'', interests_user = [''music'']\<rparr>],
          sockets = Map.empty, emitted = ([] :: unit Emission list)\<rparr>"]
  by (simp add: spec_compatible_def calls_def)

text \<open>
  C3 (FIFO fairness). The queue is scanned from its oldest entry and the first
  compatible entry wins: when the waiting entries other than the requester's own are
  \<open>older @ A # newer\<close>, \<open>A\<close> is compatible and no entry of \<open>older\<close> is, the requester is
  matched with \<open>A\<close>, whatever \<open>newer\<close> holds, and the other entries keep their order. A
  request that finds no compatible entry is appended behind all waiting entries, so the
  order of the queue is the order of arrival.
\<close>

theorem join_mode_first_fit:
  "mode request = Human \<Longrightarrow>
   pool = filter (\<lambda>user. id_user user \<noteq> sid) (waitingQueue s) \<Longrightarrow>
   (\<forall>older A newer.
      pool = older @ A # newer
      \<and> (\<forall>x \<in> set older. \<not> spec_compatible (set (interests request)) (set (interests_user x)))
      \<and> spec_compatible (set (interests request)) (set (interests_user A))
      \<longrightarrow> waitingQueue (join_mode sid request s) = older @ newer
          \<and> calls (join_mode sid request s) =
              calls s @
              [(ToRoom (id_user A),
                match_found \<lparr>roomId = ''room_'' @ id_user A @ ''_'' @ sid, peerId = sid,
                              isAi = False, initiator = True\<rparr>),
               (ToSocket sid,
                match_found \<lparr>roomId = ''room_'' @ id_user A @ ''_'' @ sid,
                              peerId = id_user A, isAi = False, initiator = False\<rparr>)])
   \<and> ((\<forall>x \<in> set pool. \<not> spec_compatible (set (interests request)) (set (interests_user x)))
      \<longrightarrow> waitingQueue (join_mode sid request s) =
            pool @ [\<lparr>id_user = sid, interests_user = interests request\<rparr>])"
proof (intro conjI allI impI)
  fix older A newer
  assume human: "mode request = Human"
    and pool: "pool = filter (\<lambda>user. id_user user \<noteq> sid) (waitingQueue s)"
    and first: "pool = older @ A # newer
      \<and> (\<forall>x \<in> set older. \<not> spec_compatible (set (interests request)) (set (interests_user x)))
      \<and> spec_compatible (set (interests request)) (set (interests_user A))"
  have eq: "join_mode sid request s =
      emit (ToSocket sid)
        (match_found \<lparr>roomId = ''room_'' @ id_user A @ ''_'' @ sid, peerId = id_user A,
                      isAi = False, initiator = False\<rparr>)
        (emit (ToRoom (id_user A))
           (match_found \<lparr>roomId = ''room_'' @ id_user A @ ''_'' @ sid, peerId = sid,
                         isAi = False, initiator = True\<rparr>)
           (socket_join (id_user A) (''room_'' @ id_user A @ ''_'' @ sid)
              (socket_join sid (''room_'' @ id_user A @ ''_'' @ sid)
                 (s\<lparr>waitingQueue := older @ newer\<rparr>))))"
    using human first pool by (intro join_mode_hit) simp_all
  show "waitingQueue (join_mode sid request s) = older @ newer"
    unfolding eq by (simp add: emit_def socket_join_def split: option.split)
  show "calls (join_mode sid request s) =
          calls s @
          [(ToRoom (id_user A),
            match_found \<lparr>roomId = ''room_'' @ id_user A @ ''_'' @ sid, peerId = sid,
                          isAi = False, initiator = True\<rparr>),
           (ToSocket sid,
            match_found \<lparr>roomId = ''room_'' @ id_user A @ ''_'' @ sid,
                          peerId = id_user A, isAi = False, initiator = False\<rparr>)]"
    unfolding eq by simp
next
  assume human: "mode request = Human"
    and pool: "pool = filter (\<lambda>user. id_user user \<noteq> sid) (waitingQueue s)"
    and none: "\<forall>x \<in> set pool.
                 \<not> spec_compatible (set (interests request)) (set (interests_user x))"
  have "join_mode sid request s =
      emit (ToSocket sid) waiting_in_queue
        (s\<lparr>waitingQueue := pool @ [\<lparr>id_user = sid, interests_user = interests request\<rparr>]\<rparr>)"
    using human none unfolding pool by (intro join_mode_miss) simp_all
  then show "waitingQueue (join_mode sid request s) =
               pool @ [\<lparr>id_user = sid, interests_user = interests request\<rparr>]"
    by (simp add: emit_def)
qed

text \<open>
  Three sockets queue up in the order a, b, c with pairwise disjoint tags; d is
  compatible with all three and is matched with a.
\<close>

theorem join_mode_first_fit_witness:
  "waitingQueue (run [Connection ''a'', Connection ''b'', Connection ''c'', Connection ''d'',
                      JoinMode ''a'' \<lparr>mode = Human, interests = [''x'']\<rparr>,
                      JoinMode ''b'' \<lparr>mode = Human, interests = [''y'']\<rparr>,
                      JoinMode ''c'' \<lparr>mode = Human, interests = [''z'']\<rparr>]
                   (initial :: unit Server)) =
     [\<lparr>id_user = ''a'', interests_user = [''x'']\<rparr>,
      \<lparr>id_user = ''b'', interests_user = [''y'']\<rparr>,
      \<lparr>id_user = ''c'', interests_user = [''z'']\<rparr>]
   \<and> waitingQueue (join_mode ''d'' \<lparr>mode = Human, interests = [''z'', ''y'', ''x'']\<rparr>
        (run [Connection ''a'', Connection ''b'', Connection ''c'', Connection ''d'',
              JoinMode ''a'' \<lparr>mode = Human, interests = [''x'']\<rparr>,
              JoinMode ''b'' \<lparr>mode = Human, interests = [''y'']\<rparr>,
              JoinMode ''c'' \<lparr>mode = Human, interests = [''z'']\<rparr>]
           (initial :: unit Server))) =
     [\<lparr>id_user = ''b'', interests_user = [''y'']\<rparr>,
      \<lparr>id_user = ''c'', interests_user = [''z'']\<rparr>]"
proof -
  let ?s = "run [Connection ''a'', Connection ''b'', Connection ''c'', Connection ''d'',
                 JoinMode ''a'' \<lparr>mode = Human, interests = [''x'']\<rparr>,
                 JoinMode ''b'' \<lparr>mode = Human, interests = [''y'']\<rparr>,
                 JoinMode ''c'' \<lparr>mode = Human, interests = [''z'']\<rparr>]
              (initial :: unit Server)"
  let ?A = "\<lparr>id_user = ''a'', interests_user = [''x'']\<rparr>"
  let ?B = "\<lparr>id_user = ''b'', interests_user = [''y'']\<rparr>"
  let ?C = "\<lparr>id_user = ''c'', interests_user = [''z'']\<rparr>"
  let ?request = "\<lparr>mode = Human, interests = [''z'', ''y'', ''x'']\<rparr>"
  have queue: "waitingQueue ?s = [?A, ?B, ?C]"
    by (simp add: run_def initial_def join_mode_def findMatch.simps emit_def Let_def
          hasCommonTag_def)
  have pool: "[?A, ?B, ?C] = filter (\<lambda>user. id_user user \<noteq> ''d'') (waitingQueue ?s)"
    by (simp add: queue)
  have "mode ?request = Human" by simp
  then have "waitingQueue (join_mode ''d'' ?request ?s) = [] @ [?B, ?C]"
    using join_mode_first_fit [OF _ pool, THEN conjunct1, rule_format, of ?request "[]" ?A "[?B, ?C]"]
    by (simp add: spec_compatible_def)
  with queue show ?thesis by simp
qed

text \<open>
  C4 (role determinism). A human-mode request either is queued or produces exactly two
  \<^verbatim>\<open>match_found\<close> emits: one addressed to a participant that was waiting, naming the
  requester as peer and carrying \<open>initiator = True\<close>, and one to the requester itself,
  naming that participant as peer and carrying \<open>initiator = False\<close>.
\<close>

theorem join_mode_roles:
  "mode request = Human \<Longrightarrow>
   calls (join_mode sid request s) = calls s @ [(ToSocket sid, waiting_in_queue)]
   \<or> (\<exists>partner \<in> set (waitingQueue s).
         id_user partner \<noteq> sid
         \<and> calls (join_mode sid request s) =
             calls s @
             [(ToRoom (id_user partner),
               match_found \<lparr>roomId = ''room_'' @ id_user partner @ ''_'' @ sid, peerId = sid,
                             isAi = False, initiator = True\<rparr>),
              (ToSocket sid,
               match_found \<lparr>roomId = ''room_'' @ id_user partner @ ''_'' @ sid,
                             peerId = id_user partner, isAi = False, initiator = False\<rparr>)])"
proof -
  assume human: "mode request = Human"
  let ?pool = "filter (\<lambda>user. id_user user \<noteq> sid) (waitingQueue s)"
  show ?thesis
  proof (cases rule: findMatch_cases [of ?pool "interests request"])
    case miss
    then have "calls (join_mode sid request s) = calls s @ [(ToSocket sid, waiting_in_queue)]"
      using human by (simp add: join_mode_miss)
    then show ?thesis by blast
  next
    case (hit older partner newer)
    have "partner \<in> set ?pool" by (subst hit(1)) simp
    then have waiting: "partner \<in> set (waitingQueue s)" "id_user partner \<noteq> sid" by simp_all
    have "calls (join_mode sid request s) =
            calls s @
            [(ToRoom (id_user partner),
              match_found \<lparr>roomId = ''room_'' @ id_user partner @ ''_'' @ sid, peerId = sid,
                            isAi = False, initiator = True\<rparr>),
             (ToSocket sid,
              match_found \<lparr>roomId = ''room_'' @ id_user partner @ ''_'' @ sid,
                            peerId = id_user partner, isAi = False, initiator = False\<rparr>)]"
      using human hit(1-3) by (simp add: join_mode_hit)
    with waiting show ?thesis by blast
  qed
qed

theorem join_mode_roles_witness:
  "calls (join_mode ''b'' \<lparr>mode = Human, interests = []\<rparr>
            \<lparr>waitingQueue = [\<lparr>id_user = ''a'', interests_user = []\<rparr>],
             sockets = Map.empty, emitted = ([] :: unit Emission list)\<rparr>) =
     [(ToRoom ''a'',
       match_found \<lparr>roomId = ''room_a_b'', peerId = ''b'', isAi = False, initiator = True\<rparr>),
      (ToSocket ''b'',
       match_found \<lparr>roomId = ''room_a_b'', peerId = ''a'', isAi = False, initiator = False\<rparr>)]"
  using join_mode_roles
    [of "\<lparr>mode = Human, interests = []\<rparr>" "''b''"
        "\<lparr>waitingQueue = [\<lparr>id_user = ''a'', interests_user = []\<rparr>],
          sockets = Map.empty, emitted = ([] :: unit Emission list)\<rparr>"]
  by (simp add: calls_def join_mode_def findMatch.simps emit_def socket_join_def Let_def)

subsection \<open>Deliveries\<close>

lemma inbox_emit:
  "inbox (emit t ev s) q = inbox s q @ (if receives (sockets s) t q then [ev] else [])"
  by (simp add: inbox_def emit_def)

lemma inbox_sockets_update [simp]: "inbox (s\<lparr>sockets := m\<rparr>) q = inbox s q"
  by (simp add: inbox_def)

lemma inbox_waitingQueue_update [simp]: "inbox (s\<lparr>waitingQueue := w\<rparr>) q = inbox s q"
  by (simp add: inbox_def)

lemma inbox_socket_leave [simp]: "inbox (socket_leave p room s) q = inbox s q"
  by (simp add: socket_leave_def split: option.split)

lemma sockets_emit [simp]: "sockets (emit t ev s) = sockets s"
  by (simp add: emit_def)

lemma waitingQueue_emit [simp]: "waitingQueue (emit t ev s) = waitingQueue s"
  by (simp add: emit_def)

lemma sockets_socket_leave_other [simp]:
  "q \<noteq> p \<Longrightarrow> sockets (socket_leave p room s) q = sockets s q"
  by (simp add: socket_leave_def split: option.split)

lemma sockets_socket_leave_self:
  "sockets (socket_leave p room s) p = map_option (filter (\<lambda>r. r \<noteq> room)) (sockets s p)"
  by (simp add: socket_leave_def split: option.split)

lemma waitingQueue_socket_leave [simp]:
  "waitingQueue (socket_leave p room s) = waitingQueue s"
  by (simp add: socket_leave_def split: option.split)

subsection \<open>The loops of \<open>leave_chat\<close> and \<open>disconnecting\<close>\<close>

lemma leave_loop_inbox:
  "q \<noteq> p \<Longrightarrow>
   inbox (fold (\<lambda>room s'.
                  if room \<noteq> p
                  then socket_leave p room (emit (ToRoomExcept room p) peer_disconnected s')
                  else s') rooms s) q =
     inbox s q @
     replicate (length (filter (\<lambda>room. in_room (sockets s) room q)
                          (filter (\<lambda>room. room \<noteq> p) rooms)))
       peer_disconnected"
proof (induction rooms arbitrary: s)
  case Nil
  then show ?case by simp
next
  case (Cons room rooms)
  let ?s1 = "socket_leave p room (emit (ToRoomExcept room p) peer_disconnected s)"
  have same: "in_room (sockets ?s1) r q = in_room (sockets s) r q" for r
    using Cons.prems by (simp add: in_room_def)
  show ?case
  proof (cases "room = p")
    case True
    then show ?thesis using Cons by simp
  next
    case False
    then show ?thesis
      using Cons.IH [OF Cons.prems, of ?s1] Cons.prems
      by (simp add: same inbox_emit replicate_app_Cons_same)
  qed
qed

lemma leave_loop_sockets_self:
  "sockets (fold (\<lambda>room s'.
                    if room \<noteq> p
                    then socket_leave p room (emit (ToRoomExcept room p) peer_disconnected s')
                    else s') rooms s) p =
     map_option (filter (\<lambda>r. r = p \<or> r \<notin> set rooms)) (sockets s p)"
proof (induction rooms arbitrary: s)
  case Nil
  then show ?case by (simp add: option.map_ident)
next
  case (Cons room rooms)
  show ?case
  proof (cases "room = p")
    case True
    then show ?thesis
      using Cons.IH [of s] by (auto intro!: option.map_cong filter_cong)
  next
    case False
    then show ?thesis
      using Cons.IH [of "socket_leave p room (emit (ToRoomExcept room p) peer_disconnected s)"]
      by (auto simp: sockets_socket_leave_self option.map_comp comp_def
               intro!: option.map_cong filter_cong)
  qed
qed

lemma leave_loop_own_only:
  "\<forall>room \<in> set rooms. room = p \<Longrightarrow>
   fold (\<lambda>room s'.
           if room \<noteq> p
           then socket_leave p room (emit (ToRoomExcept room p) peer_disconnected s')
           else s') rooms s = s"
  by (induction rooms) simp_all

lemma disconnecting_loop_inbox:
  "q \<noteq> p \<Longrightarrow>
   inbox (fold (\<lambda>room s'.
                  if room \<noteq> p then emit (ToRoomExcept room p) peer_disconnected s' else s')
            rooms s) q =
     inbox s q @
     replicate (length (filter (\<lambda>room. in_room (sockets s) room q)
                          (filter (\<lambda>room. room \<noteq> p) rooms)))
       peer_disconnected"
proof (induction rooms arbitrary: s)
  case Nil
  then show ?case by simp
next
  case (Cons room rooms)
  show ?case
  proof (cases "room = p")
    case True
    then show ?thesis using Cons by simp
  next
    case False
    then show ?thesis
      using Cons.IH [OF Cons.prems, of "emit (ToRoomExcept room p) peer_disconnected s"] Cons.prems
      by (simp add: inbox_emit replicate_app_Cons_same)
  qed
qed

lemma disconnecting_loop_own_only:
  "\<forall>room \<in> set rooms. room = p \<Longrightarrow>
   fold (\<lambda>room s'.
           if room \<noteq> p then emit (ToRoomExcept room p) peer_disconnected s' else s')
     rooms s = s"
  by (induction rooms) simp_all

subsection \<open>One withdrawal\<close>

lemma socket_rooms_waitingQueue_update [simp]:
  "socket_rooms (s\<lparr>waitingQueue := w\<rparr>) p = socket_rooms s p"
  by (simp add: socket_rooms_def)

lemma leave_chat_inbox:
  "q \<noteq> p \<Longrightarrow>
   inbox (leave_chat p s) q =
     inbox s q @ replicate (length (shared_sessions s p q)) peer_disconnected"
  by (simp add: leave_chat_def leave_loop_inbox shared_sessions_def sessions_def)

lemma disconnecting_inbox:
  "q \<noteq> p \<Longrightarrow>
   inbox (disconnecting p s) q =
     inbox s q @ replicate (length (shared_sessions s p q)) peer_disconnected"
  by (simp add: disconnecting_def disconnecting_loop_inbox shared_sessions_def sessions_def)

lemma leave_chat_rooms:
  "sockets s p = Some rooms \<Longrightarrow>
   sockets (leave_chat p s) p = Some (filter (\<lambda>r. r = p) rooms)"
  by (auto simp: leave_chat_def leave_loop_sockets_self socket_rooms_def intro!: filter_cong)

lemma sessions_after_leave_chat: "sessions (leave_chat p s) p = []"
proof (cases "sockets s p")
  case None
  then show ?thesis
    by (simp add: sessions_def socket_rooms_def leave_chat_def)
next
  case (Some rooms)
  then show ?thesis
    by (simp add: sessions_def socket_rooms_def leave_chat_rooms)
qed

text \<open>A withdrawal of a socket that is in no session emits nothing.\<close>

lemma leave_chat_silent:
  "sessions s p = [] \<Longrightarrow> emitted (leave_chat p s) = emitted s"
proof -
  assume "sessions s p = []"
  then have "\<forall>room \<in> set (socket_rooms s p). room = p"
    by (simp add: sessions_def filter_empty_conv)
  then show ?thesis by (simp add: leave_chat_def leave_loop_own_only)
qed

lemma disconnecting_silent:
  "sessions s p = [] \<Longrightarrow> emitted (disconnecting p s) = emitted s"
proof -
  assume "sessions s p = []"
  then have "\<forall>room \<in> set (socket_rooms s p). room = p"
    by (simp add: sessions_def filter_empty_conv)
  then show ?thesis by (simp add: disconnecting_def disconnecting_loop_own_only)
qed

lemma inbox_cong: "emitted s' = emitted s \<Longrightarrow> inbox s' q = inbox s q"
  by (simp add: inbox_def)

subsection \<open>Two withdrawals\<close>

lemma sessions_not_connected: "sockets s p = None \<Longrightarrow> sessions s p = []"
  by (simp add: sessions_def socket_rooms_def)

lemma sessions_after_withdrawal:
  "w \<in> {LeaveChat p, Disconnect p} \<Longrightarrow> sessions (step w s) p = []"
  by (auto simp: sessions_after_leave_chat sessions_not_connected Let_def)

lemma withdrawal_silent:
  "w \<in> {LeaveChat p, Disconnect p} \<Longrightarrow> sessions s p = [] \<Longrightarrow>
   emitted (step w s) = emitted s"
  by (auto simp: leave_chat_silent disconnecting_silent Let_def)

lemma withdrawal_inbox:
  assumes "w \<in> {LeaveChat p, Disconnect p}" and "q \<noteq> p"
  shows "inbox (step w s) q =
           inbox s q @ replicate (length (shared_sessions s p q)) peer_disconnected"
proof (cases "sockets s p")
  case None
  then have "shared_sessions s p q = []"
    by (simp add: shared_sessions_def sessions_not_connected)
  then show ?thesis using None assms(1) by auto
next
  case (Some rooms)
  then show ?thesis
    using assms by (auto simp: leave_chat_inbox disconnecting_inbox Let_def)
qed

text \<open>
  C5 (idempotent withdrawal), as the code has it. Of any two of \<^verbatim>\<open>leave_chat\<close> and
  disconnect by \<open>p\<close>, in any order, the second delivers nothing to anyone. When \<open>p\<close>
  and \<open>q\<close> share exactly one session, the two together deliver exactly one
  \<^verbatim>\<open>peer_disconnected\<close> to \<open>q\<close> and nothing else.
\<close>

theorem withdraw_twice_notifies_once:
  "w1 \<in> {LeaveChat p, Disconnect p} \<Longrightarrow>
   w2 \<in> {LeaveChat p, Disconnect p} \<Longrightarrow>
   inbox (run [w1, w2] s) q = inbox (run [w1] s) q
   \<and> (q \<noteq> p \<and> shared_sessions s p q = [room]
        \<longrightarrow> inbox (run [w1, w2] s) q = inbox s q @ [peer_disconnected])"
proof -
  assume w1: "w1 \<in> {LeaveChat p, Disconnect p}"
    and w2: "w2 \<in> {LeaveChat p, Disconnect p}"
  have "sessions (step w1 s) p = []"
    using w1 by (rule sessions_after_withdrawal)
  with w2 have "emitted (step w2 (step w1 s)) = emitted (step w1 s)"
    by (rule withdrawal_silent)
  then have second: "inbox (step w2 (step w1 s)) q = inbox (step w1 s) q"
    by (rule inbox_cong)
  have "inbox (step w1 s) q = inbox s q @ [peer_disconnected]"
    if "q \<noteq> p" "shared_sessions s p q = [room]"
    using withdrawal_inbox [OF w1 that(1), of s] that(2) by simp
  with second show ?thesis by (simp add: run_def)
qed

theorem withdraw_twice_notifies_once_witness:
  "inbox (run [Disconnect ''a'', LeaveChat ''a'']
            \<lparr>waitingQueue = [],
             sockets = [''a'' \<mapsto> [''a'', ''room_a_b''], ''b'' \<mapsto> [''b'', ''room_a_b'']],
             emitted = ([] :: unit Emission list)\<rparr>) ''b'' = [peer_disconnected]"
  using withdraw_twice_notifies_once
    [of "Disconnect ''a''" "''a''" "LeaveChat ''a''"
        "\<lparr>waitingQueue = [],
          sockets = [''a'' \<mapsto> [''a'', ''room_a_b''], ''b'' \<mapsto> [''b'', ''room_a_b'']],
          emitted = ([] :: unit Emission list)\<rparr>" "''b''" "''room_a_b''"]
  by (simp add: shared_sessions_def sessions_def socket_rooms_def in_room_def inbox_def
        run_def Let_def disconnecting_def emit_def)

text \<open>
  The server does not keep two sockets to one common session. a and b are matched, both
  ask again without \<^verbatim>\<open>leave_chat\<close> and are matched a second time, in the room
  \<open>room_b_a\<close> next to \<open>room_a_b\<close>. The first withdrawal of a then notifies b once for
  each room: b receives \<^verbatim>\<open>peer_disconnected\<close> twice, whether a leaves twice or
  disconnects and leaves.
\<close>

theorem withdraw_twice_counterexample:
  "inbox (run [Connection ''a'', Connection ''b'',
               JoinMode ''a'' \<lparr>mode = Human, interests = []\<rparr>,
               JoinMode ''b'' \<lparr>mode = Human, interests = []\<rparr>,
               JoinMode ''b'' \<lparr>mode = Human, interests = []\<rparr>,
               JoinMode ''a'' \<lparr>mode = Human, interests = []\<rparr>]
            (initial :: unit Server)) ''b'' =
     [match_found \<lparr>roomId = ''room_a_b'', peerId = ''a'', isAi = False, initiator = False\<rparr>,
      waiting_in_queue,
      match_found \<lparr>roomId = ''room_b_a'', peerId = ''a'', isAi = False, initiator = True\<rparr>]
   \<and> inbox (run [Connection ''a'', Connection ''b'',
                 JoinMode ''a'' \<lparr>mode = Human, interests = []\<rparr>,
                 JoinMode ''b'' \<lparr>mode = Human, interests = []\<rparr>,
                 JoinMode ''b'' \<lparr>mode = Human, interests = []\<rparr>,
                 JoinMode ''a'' \<lparr>mode = Human, interests = []\<rparr>,
                 LeaveChat ''a'', LeaveChat ''a'']
              (initial :: unit Server)) ''b'' =
     [match_found \<lparr>roomId = ''room_a_b'', peerId = ''a'', isAi = False, initiator = False\<rparr>,
      waiting_in_queue,
      match_found \<lparr>roomId = ''room_b_a'', peerId = ''a'', isAi = False, initiator = True\<rparr>,
      peer_disconnected, peer_disconnected]
   \<and> inbox (run [Connection ''a'', Connection ''b'',
                 JoinMode ''a'' \<lparr>mode = Human, interests = []\<rparr>,
                 JoinMode ''b'' \<lparr>mode = Human, interests = []\<rparr>,
                 JoinMode ''b'' \<lparr>mode = Human, interests = []\<rparr>,
                 JoinMode ''a'' \<lparr>mode = Human, interests = []\<rparr>,
                 Disconnect ''a'', LeaveChat ''a'']
              (initial :: unit Server)) ''b'' =
     [match_found \<lparr>roomId = ''room_a_b'', peerId = ''a'', isAi = False, initiator = False\<rparr>,
      waiting_in_queue,
      match_found \<lparr>roomId = ''room_b_a'', peerId = ''a'', isAi = False, initiator = True\<rparr>,
      peer_disconnected, peer_disconnected]"
  by (simp add: run_def initial_def inbox_def in_room_def socket_rooms_def join_mode_def
        findMatch.simps emit_def socket_join_def socket_leave_def leave_chat_def
        disconnecting_def Let_def)

subsection \<open>The state after \<open>join_mode\<close>\<close>

lemma join_mode_cases:
  obtains (ai) "mode request = Ai"
      "join_mode sid request s =
         emit (ToSocket sid)
           (match_found \<lparr>roomId = ''ai_'' @ sid, peerId = ''ai-agent'', isAi = True,
                         initiator = True\<rparr>)
           (s\<lparr>waitingQueue := filter (\<lambda>user. id_user user \<noteq> sid) (waitingQueue s)\<rparr>)"
  | (queued) "mode request = Human"
      "join_mode sid request s =
         emit (ToSocket sid) waiting_in_queue
           (s\<lparr>waitingQueue := filter (\<lambda>user. id_user user \<noteq> sid) (waitingQueue s)
                                @ [\<lparr>id_user = sid, interests_user = interests request\<rparr>]\<rparr>)"
  | (matched) older u newer where "mode request = Human"
      "filter (\<lambda>user. id_user user \<noteq> sid) (waitingQueue s) = older @ u # newer"
      "join_mode sid request s =
         emit (ToSocket sid)
           (match_found \<lparr>roomId = ''room_'' @ id_user u @ ''_'' @ sid, peerId = id_user u,
                         isAi = False, initiator = False\<rparr>)
           (emit (ToRoom (id_user u))
              (match_found \<lparr>roomId = ''room_'' @ id_user u @ ''_'' @ sid, peerId = sid,
                            isAi = False, initiator = True\<rparr>)
              (socket_join (id_user u) (''room_'' @ id_user u @ ''_'' @ sid)
                 (socket_join sid (''room_'' @ id_user u @ ''_'' @ sid)
                    (s\<lparr>waitingQueue := older @ newer\<rparr>))))"
proof (cases "mode request")
  case Ai
  then show ?thesis using ai join_mode_ai by blast
next
  case Human
  show ?thesis
  proof (cases rule: findMatch_cases
      [of "filter (\<lambda>user. id_user user \<noteq> sid) (waitingQueue s)" "interests request"])
    case miss
    then show ?thesis using queued Human join_mode_miss [of request sid s] by blast
  next
    case (hit older u newer)
    then show ?thesis
      using matched [of older u newer] Human join_mode_hit [of request sid s older u newer]
      by blast
  qed
qed

lemma waitingQueue_socket_join [simp]:
  "waitingQueue (socket_join p room s) = waitingQueue s"
  by (simp add: socket_join_def split: option.split)

lemma sessions_emit [simp]: "sessions (emit t ev s) p = sessions s p"
  by (simp add: sessions_def socket_rooms_def)

lemma sessions_waitingQueue_update [simp]: "sessions (s\<lparr>waitingQueue := w\<rparr>) p = sessions s p"
  by (simp add: sessions_def)

lemma sessions_socket_join_other [simp]:
  "q \<noteq> p \<Longrightarrow> sessions (socket_join p room s) q = sessions s q"
  by (simp add: sessions_def socket_rooms_def socket_join_def split: option.split)

lemma sessions_socket_join_le:
  "length (sessions (socket_join p room s) p) \<le> Suc (length (sessions s p))"
  by (simp add: sessions_def socket_rooms_def socket_join_def split: option.split)

lemma sessions_leave_chat_other [simp]:
  "q \<noteq> p \<Longrightarrow> sessions (leave_chat p s) q = sessions s q"
proof -
  assume "q \<noteq> p"
  then have "sockets (fold (\<lambda>room s'.
                    if room \<noteq> p
                    then socket_leave p room (emit (ToRoomExcept room p) peer_disconnected s')
                    else s') rooms s0) q = sockets s0 q" for rooms and s0 :: "'a Server"
    by (induction rooms arbitrary: s0) simp_all
  then show ?thesis
    by (simp add: sessions_def socket_rooms_def leave_chat_def)
qed

lemma waitingQueue_leave_chat [simp]:
  "waitingQueue (leave_chat p s) = filter (\<lambda>user. id_user user \<noteq> p) (waitingQueue s)"
proof -
  have "waitingQueue (fold (\<lambda>room s'.
                    if room \<noteq> p
                    then socket_leave p room (emit (ToRoomExcept room p) peer_disconnected s')
                    else s') rooms s0) = waitingQueue s0" for rooms and s0 :: "'a Server"
    by (induction rooms arbitrary: s0) simp_all
  then show ?thesis by (simp add: leave_chat_def)
qed

lemma disconnecting_loop_frame:
  "sockets (fold (\<lambda>room s'.
             if room \<noteq> p then emit (ToRoomExcept room p) peer_disconnected s' else s')
        rooms s) = sockets s
   \<and> waitingQueue (fold (\<lambda>room s'.
             if room \<noteq> p then emit (ToRoomExcept room p) peer_disconnected s' else s')
        rooms s) = waitingQueue s"
  by (induction rooms arbitrary: s) simp_all

lemma sockets_disconnecting [simp]: "sockets (disconnecting p s) = sockets s"
  by (simp add: disconnecting_def disconnecting_loop_frame)

lemma waitingQueue_disconnecting [simp]:
  "waitingQueue (disconnecting p s) = filter (\<lambda>user. id_user user \<noteq> p) (waitingQueue s)"
  by (simp add: disconnecting_def disconnecting_loop_frame)

subsection \<open>The queue holds each identity at most once\<close>

lemma distinct_ids_filter:
  "distinct (map id_user q) \<Longrightarrow> distinct (map id_user (filter P q))"
  by (rule distinct_map_filter)

lemma join_mode_distinct:
  assumes "distinct (map id_user (waitingQueue s))"
  shows "distinct (map id_user (waitingQueue (join_mode sid request s)))"
proof (cases rule: join_mode_cases [of request sid s])
  case ai
  then show ?thesis using assms by (simp add: distinct_ids_filter)
next
  case queued
  then show ?thesis using assms by (auto simp: distinct_ids_filter)
next
  case (matched older u newer)
  have "distinct (map id_user (older @ u # newer))"
    using assms distinct_ids_filter matched(2) by metis
  then show ?thesis using matched(3) by simp
qed

lemma step_distinct:
  "distinct (map id_user (waitingQueue s)) \<Longrightarrow>
   distinct (map id_user (waitingQueue (step ev s)))"
  by (cases ev) (simp_all add: join_mode_distinct distinct_ids_filter signal_def Let_def)

lemma run_distinct:
  "distinct (map id_user (waitingQueue s)) \<Longrightarrow>
   distinct (map id_user (waitingQueue (run evs s)))"
  unfolding run_def by (induction evs arbitrary: s) (simp_all add: step_distinct)

subsection \<open>At most one session per socket, for clients that leave before they join\<close>

lemma join_mode_sessions:
  assumes dist: "distinct (map id_user (waitingQueue s))"
    and idle: "waiting_idle s"
    and one: "\<forall>q. length (sessions s q) \<le> 1"
    and free: "sessions s sid = []"
  shows "waiting_idle (join_mode sid request s)
         \<and> (\<forall>q. length (sessions (join_mode sid request s) q) \<le> 1)"
proof (cases rule: join_mode_cases [of request sid s])
  case ai
  then show ?thesis using idle one by (simp add: waiting_idle_def)
next
  case queued
  then show ?thesis using idle one free by (simp add: waiting_idle_def)
next
  case (matched older u newer)
  let ?room = "''room_'' @ id_user u @ ''_'' @ sid"
  let ?s1 = "socket_join sid ?room (s\<lparr>waitingQueue := older @ newer\<rparr>)"
  let ?s2 = "socket_join (id_user u) ?room ?s1"
  have sess: "sessions (join_mode sid request s) q = sessions ?s2 q" for q
    by (simp add: matched(3))
  have queue: "waitingQueue (join_mode sid request s) = older @ newer"
    by (simp add: matched(3))
  have "u \<in> set (filter (\<lambda>user. id_user user \<noteq> sid) (waitingQueue s))"
    by (simp add: matched(2))
  then have u: "u \<in> set (waitingQueue s)" "id_user u \<noteq> sid" by simp_all
  then have u_free: "sessions s (id_user u) = []" using idle by (simp add: waiting_idle_def)
  have pool_dist: "distinct (map id_user (older @ u # newer))"
    using dist distinct_ids_filter matched(2) by metis
  have others: "sessions ?s2 q = sessions s q" if "q \<noteq> sid" "q \<noteq> id_user u" for q
    using that by simp
  have "length (sessions ?s1 sid) \<le> 1"
    using sessions_socket_join_le [of sid ?room "s\<lparr>waitingQueue := older @ newer\<rparr>"] free
    by simp
  then have at_sid: "length (sessions ?s2 sid) \<le> 1" using u(2) by simp
  have "sessions ?s1 (id_user u) = []" using u(2) u_free by simp
  then have at_u: "length (sessions ?s2 (id_user u)) \<le> 1"
    using sessions_socket_join_le [of "id_user u" ?room ?s1] by simp
  have bound: "length (sessions ?s2 q) \<le> 1" for q
    using at_sid at_u others [of q] one by (cases "q = sid"; cases "q = id_user u") auto
  have "sessions ?s2 (id_user x) = []" if "x \<in> set (older @ newer)" for x
  proof -
    have "x \<in> set (filter (\<lambda>user. id_user user \<noteq> sid) (waitingQueue s))"
      using that by (subst matched(2)) auto
    then have x: "x \<in> set (waitingQueue s)" "id_user x \<noteq> sid" by simp_all
    have "id_user u \<notin> id_user ` set (older @ newer)" using pool_dist by auto
    then have "id_user x \<noteq> id_user u" using that by (metis imageI)
    then have "sessions ?s2 (id_user x) = sessions s (id_user x)"
      using x(2) by (intro others)
    then show ?thesis using idle x(1) by (simp add: waiting_idle_def)
  qed
  then have "waiting_idle (join_mode sid request s)"
    unfolding waiting_idle_def queue sess by blast
  then show ?thesis using bound sess by simp
qed

lemma sessions_connect:
  "sessions (s\<lparr>sockets := (sockets s)(p \<mapsto> [p])\<rparr>) q = (if q = p then [] else sessions s q)"
  by (simp add: sessions_def socket_rooms_def)

lemma sessions_disconnecting [simp]: "sessions (disconnecting p s) q = sessions s q"
  by (simp add: sessions_def socket_rooms_def)

lemma sessions_step_disconnect:
  "sessions (step (Disconnect p) s) q = (if q = p then [] else sessions s q)"
  by (simp add: sessions_def socket_rooms_def Let_def)

lemma step_sessions:
  assumes dist: "distinct (map id_user (waitingQueue s))"
    and idle: "waiting_idle s"
    and one: "\<forall>q. length (sessions s q) \<le> 1"
    and polite: "\<And>sid request. ev = JoinMode sid request \<Longrightarrow> sessions s sid = []"
  shows "waiting_idle (step ev s) \<and> (\<forall>q. length (sessions (step ev s) q) \<le> 1)"
proof (cases ev)
  case (Connection p)
  then show ?thesis using idle one by (simp add: waiting_idle_def sessions_connect)
next
  case (JoinMode p request)
  then show ?thesis
    using join_mode_sessions [OF dist idle one polite [OF JoinMode], of request] idle one
    by simp
next
  case (Signal p data)
  then show ?thesis using idle one by (simp add: signal_def waiting_idle_def)
next
  case (LeaveChat p)
  have "sessions (leave_chat p s) q = (if q = p then [] else sessions s q)" for q
    by (simp add: sessions_after_leave_chat)
  then show ?thesis using LeaveChat idle one by (simp add: waiting_idle_def)
next
  case (Disconnect p)
  show ?thesis
  proof (cases "sockets s p")
    case None
    then show ?thesis using Disconnect idle one by simp
  next
    case (Some rooms)
    then have queue: "waitingQueue (step ev s) =
        filter (\<lambda>user. id_user user \<noteq> p) (waitingQueue s)"
      using Disconnect by (simp add: Let_def)
    have sess: "sessions (step ev s) q = (if q = p then [] else sessions s q)" for q
      unfolding Disconnect by (rule sessions_step_disconnect)
    have "waiting_idle (step ev s)"
      unfolding waiting_idle_def queue sess using idle by (simp add: waiting_idle_def)
    moreover have "\<forall>q. length (sessions (step ev s) q) \<le> 1"
      unfolding sess using one by simp
    ultimately show ?thesis by blast
  qed
qed

lemma run_sessions:
  "distinct (map id_user (waitingQueue s)) \<Longrightarrow> waiting_idle s \<Longrightarrow>
   \<forall>q. length (sessions s q) \<le> 1 \<Longrightarrow> leaves_before_join s evs \<Longrightarrow>
   \<forall>q. length (sessions (run evs s) q) \<le> 1"
proof (induction evs arbitrary: s)
  case Nil
  then show ?case by (simp add: run_def)
next
  case (Cons ev evs)
  have polite: "sessions s sid = []" if "ev = JoinMode sid request" for sid request
    using Cons.prems(4) that by simp
  have rest: "leaves_before_join (step ev s) evs"
    using Cons.prems(4) by (cases ev) simp_all
  have "waiting_idle (step ev s) \<and> (\<forall>q. length (sessions (step ev s) q) \<le> 1)"
    by (rule step_sessions [OF Cons.prems(1-3)]) (rule polite)
  then have "\<forall>q. length (sessions (run evs (step ev s)) q) \<le> 1"
    using Cons.IH [OF step_distinct [OF Cons.prems(1)] _ _ rest] by blast
  then show ?case by (simp add: run_def)
qed

text \<open>
  C2 (mutual exclusivity), as the code has it. From the empty server, after any sequence
  of events the queue holds each identity at most once. The server itself does not keep a
  socket out of a second session; no socket is in more than one session as long as
  every \<^verbatim>\<open>join_mode\<close> comes from a socket that is in no session, which is the order in
  which the client sends \<^verbatim>\<open>leave_chat\<close> and \<^verbatim>\<open>join_mode\<close>.
\<close>

theorem mutual_exclusivity:
  "distinct (map id_user (waitingQueue (run evs initial)))
   \<and> (leaves_before_join initial evs \<longrightarrow> length (sessions (run evs initial) sid) \<le> 1)"
proof
  show "distinct (map id_user (waitingQueue (run evs initial)))"
    by (rule run_distinct) (simp add: initial_def)
  show "leaves_before_join initial evs \<longrightarrow> length (sessions (run evs initial) sid) \<le> 1"
  proof
    assume "leaves_before_join initial evs"
    then have "\<forall>q. length (sessions (run evs initial) q) \<le> 1"
      by (intro run_sessions)
         (simp_all add: initial_def waiting_idle_def sessions_def socket_rooms_def)
    then show "length (sessions (run evs initial) sid) \<le> 1" by blast
  qed
qed

theorem mutual_exclusivity_witness:
  "leaves_before_join (initial :: unit Server)
     [Connection ''a'', Connection ''b'', Connection ''c'',
      JoinMode ''a'' \<lparr>mode = Human, interests = []\<rparr>,
      JoinMode ''b'' \<lparr>mode = Human, interests = []\<rparr>,
      LeaveChat ''b'',
      JoinMode ''b'' \<lparr>mode = Human, interests = []\<rparr>,
      JoinMode ''c'' \<lparr>mode = Human, interests = []\<rparr>]
   \<and> length (sessions (run [Connection ''a'', Connection ''b'', Connection ''c'',
                             JoinMode ''a'' \<lparr>mode = Human, interests = []\<rparr>,
                             JoinMode ''b'' \<lparr>mode = Human, interests = []\<rparr>,
                             LeaveChat ''b'',
                             JoinMode ''b'' \<lparr>mode = Human, interests = []\<rparr>,
                             JoinMode ''c'' \<lparr>mode = Human, interests = []\<rparr>]
                          (initial :: unit Server)) ''b'') \<le> 1"
proof -
  have polite: "leaves_before_join (initial :: unit Server)
     [Connection ''a'', Connection ''b'', Connection ''c'',
      JoinMode ''a'' \<lparr>mode = Human, interests = []\<rparr>,
      JoinMode ''b'' \<lparr>mode = Human, interests = []\<rparr>,
      LeaveChat ''b'',
      JoinMode ''b'' \<lparr>mode = Human, interests = []\<rparr>,
      JoinMode ''c'' \<lparr>mode = Human, interests = []\<rparr>]"
    by (simp add: initial_def sessions_def socket_rooms_def join_mode_def findMatch.simps
          emit_def socket_join_def socket_leave_def leave_chat_def Let_def)
  with mutual_exclusivity [where 'a = unit, of _ "''b''"] show ?thesis by blast
qed

text \<open>
  Without that discipline the session part fails: b is matched with a, asks again
  without leaving and is matched with c; b is then in both rooms, each with two members.
\<close>

theorem mutual_exclusivity_counterexample:
  "sessions (run [Connection ''a'', Connection ''b'', Connection ''c'',
                  JoinMode ''a'' \<lparr>mode = Human, interests = []\<rparr>,
                  JoinMode ''b'' \<lparr>mode = Human, interests = []\<rparr>,
                  JoinMode ''b'' \<lparr>mode = Human, interests = []\<rparr>,
                  JoinMode ''c'' \<lparr>mode = Human, interests = []\<rparr>]
               (initial :: unit Server)) ''b'' = [''room_a_b'', ''room_b_c'']
   \<and> sessions (run [Connection ''a'', Connection ''b'', Connection ''c'',
                    JoinMode ''a'' \<lparr>mode = Human, interests = []\<rparr>,
                    JoinMode ''b'' \<lparr>mode = Human, interests = []\<rparr>,
                    JoinMode ''b'' \<lparr>mode = Human, interests = []\<rparr>,
                    JoinMode ''c'' \<lparr>mode = Human, interests = []\<rparr>]
                 (initial :: unit Server)) ''a'' = [''room_a_b'']
   \<and> sessions (run [Connection ''a'', Connection ''b'', Connection ''c'',
                    JoinMode ''a'' \<lparr>mode = Human, interests = []\<rparr>,
                    JoinMode ''b'' \<lparr>mode = Human, interests = []\<rparr>,
                    JoinMode ''b'' \<lparr>mode = Human, interests = []\<rparr>,
                    JoinMode ''c'' \<lparr>mode = Human, interests = []\<rparr>]
                 (initial :: unit Server)) ''c'' = [''room_b_c'']"
  by (simp add: run_def initial_def sessions_def socket_rooms_def join_mode_def findMatch.simps
        emit_def socket_join_def Let_def)

subsection \<open>The retry loop\<close>

lemma Empty_response_not_transient:
  "\<not> (includes_str ''Empty response'' ''503'' \<or> includes_str ''Empty response'' ''500''
      \<or> includes_str ''Empty response'' ''429'')"
  by simp

lemma tryGenerate_empty:
  "t = None \<or> t = Some [] \<Longrightarrow>
   tryGenerate (Resolves t) = Inl (Error (Some ''Empty response''))"
  by (auto simp: tryGenerate_def)

lemma loop_retry:
  "attempt < retries \<Longrightarrow> backend history attempt = Rejects (Error (Some m)) \<Longrightarrow>
   includes_str m ''503'' \<or> includes_str m ''500'' \<or> includes_str m ''429'' \<Longrightarrow>
   next_attempt = attempt + 1 \<Longrightarrow>
   callGeminiRetry_loop backend history retries delay attempt waited =
     callGeminiRetry_loop backend history retries delay next_attempt
       (waited @ [delay * 2 ^ attempt])"
  by (subst callGeminiRetry_loop.simps) (simp add: tryGenerate_def)

lemma loop_last_attempt:
  "backend history retries = Rejects error \<Longrightarrow> 0 < retries \<Longrightarrow>
   callGeminiRetry_loop backend history retries delay retries waited = (Inl error, waited)"
  by (subst callGeminiRetry_loop.simps) (simp add: tryGenerate_def)

lemma loop_success:
  "attempt \<le> retries \<Longrightarrow> backend history attempt = Resolves (Some t) \<Longrightarrow> t \<noteq> [] \<Longrightarrow>
   callGeminiRetry_loop backend history retries delay attempt waited = (Inr t, waited)"
  by (subst callGeminiRetry_loop.simps) (simp add: tryGenerate_def)

text \<open>
  C6, as the code has it. An empty response is turned into the failure
  \<^verbatim>\<open>Error("Empty response")\<close>, but that message carries none of the transient signatures:
  at whatever attempt it occurs, the call is rejected with that error at once, with no
  further delay and no further attempt.
\<close>

theorem empty_response_not_retried:
  "attempt \<le> retries \<Longrightarrow>
   backend history attempt = Resolves t \<Longrightarrow>
   t = None \<or> t = Some [] \<Longrightarrow>
   callGeminiRetry_loop backend history retries delay attempt waited =
     (Inl (Error (Some ''Empty response'')), waited)"
proof -
  assume attempt: "attempt \<le> retries"
    and resolves: "backend history attempt = Resolves t"
    and empty: "t = None \<or> t = Some []"
  have "tryGenerate (backend history attempt) = Inl (Error (Some ''Empty response''))"
    using resolves empty by (simp add: tryGenerate_empty)
  then show ?thesis
    using attempt Empty_response_not_transient
    by (subst callGeminiRetry_loop.simps) (simp del: includes_str.simps)
qed

theorem empty_response_not_retried_witness:
  "callGeminiRetry (scripted [Resolves None, Resolves (Some ''hello'')]) ([] :: unit list) 3 1000 =
     (Inl (Error (Some ''Empty response'')), [])"
  using empty_response_not_retried
    [of 1 3 "scripted [Resolves None, Resolves (Some ''hello'')]" "[] :: unit list" None 1000 "[]"]
  by (simp add: callGeminiRetry_def scripted_def)

text \<open>
  An empty first response ends the call with no retry, although two attempts remain and
  the second call would have succeeded; a transient transport error in its place is
  retried after 2000 ms and the call succeeds.
\<close>

theorem empty_response_retried_counterexample:
  "callGeminiRetry (scripted [Resolves (Some []), Resolves (Some ''hello'')])
     ([] :: unit list) 3 1000 = (Inl (Error (Some ''Empty response'')), [])
   \<and> callGeminiRetry (scripted [Rejects (Error (Some ''503'')), Resolves (Some ''hello'')])
       ([] :: unit list) 3 1000 = (Inr ''hello'', [2000])"
  by (simp add: callGeminiRetry_def callGeminiRetry_loop.simps scripted_def tryGenerate_def)

text \<open>
  C7 (backoff bound). When the three calls of the backend all reject with a message that
  carries a transient signature, the adapter waits 2000 ms and then 4000 ms, gives up after
  the third call, and the \<^verbatim>\<open>send_message\<close> handler emits exactly one message, the system
  message, to the sender.
\<close>

theorem three_transient_failures:
  "isAi_data data \<Longrightarrow>
   h = (case history_data data of None \<Rightarrow> [] | Some xs \<Rightarrow> xs) \<Longrightarrow>
   \<forall>k \<in> {1, 2, 3}. \<exists>m. backend h k = Rejects (Error (Some m))
      \<and> (includes_str m ''503'' \<or> includes_str m ''500'' \<or> includes_str m ''429'') \<Longrightarrow>
   calls (send_message backend rnd now sid data s) =
     calls s @
     [(ToSocket sid,
       receive_message \<lparr>id_msg = ''error'', sender = System,
                         text_msg = ''AI is currently offline'', timestamp = now\<rparr>)]
   \<and> snd (callGeminiRetry backend h 3 1000) = [2000, 4000]
   \<and> sorted (snd (callGeminiRetry backend h 3 1000))"
proof -
  assume ai: "isAi_data data"
    and h: "h = (case history_data data of None \<Rightarrow> [] | Some xs \<Rightarrow> xs)"
    and fails: "\<forall>k \<in> {1, 2, 3}. \<exists>m. backend h k = Rejects (Error (Some m))
      \<and> (includes_str m ''503'' \<or> includes_str m ''500'' \<or> includes_str m ''429'')"
  have "\<exists>m. backend h 1 = Rejects (Error (Some m))
      \<and> (includes_str m ''503'' \<or> includes_str m ''500'' \<or> includes_str m ''429'')"
    using fails by blast
  then obtain m1 where m1: "backend h 1 = Rejects (Error (Some m1))"
      "includes_str m1 ''503'' \<or> includes_str m1 ''500'' \<or> includes_str m1 ''429''"
    by blast
  have "\<exists>m. backend h 2 = Rejects (Error (Some m))
      \<and> (includes_str m ''503'' \<or> includes_str m ''500'' \<or> includes_str m ''429'')"
    using fails by blast
  then obtain m2 where m2: "backend h 2 = Rejects (Error (Some m2))"
      "includes_str m2 ''503'' \<or> includes_str m2 ''500'' \<or> includes_str m2 ''429''"
    by blast
  have "\<exists>m. backend h 3 = Rejects (Error (Some m))
      \<and> (includes_str m ''503'' \<or> includes_str m ''500'' \<or> includes_str m ''429'')"
    using fails by blast
  then obtain m3 where m3: "backend h 3 = Rejects (Error (Some m3))"
    by blast
  have "callGeminiRetry backend h 3 1000 = callGeminiRetry_loop backend h 3 1000 1 []"
    by (simp add: callGeminiRetry_def)
  also have "\<dots> = callGeminiRetry_loop backend h 3 1000 2 ([] @ [1000 * 2 ^ 1])"
    using m1 by (intro loop_retry [where backend = backend and history = h and m = m1]) simp_all
  also have "\<dots> = callGeminiRetry_loop backend h 3 1000 2 [2000]"
    by simp
  also have "\<dots> = callGeminiRetry_loop backend h 3 1000 3 ([2000] @ [1000 * 2 ^ 2])"
    using m2 by (intro loop_retry [where backend = backend and history = h and m = m2]) simp_all
  also have "\<dots> = callGeminiRetry_loop backend h 3 1000 3 [2000, 4000]"
    by simp
  also have "\<dots> = (Inl (Error (Some m3)), [2000, 4000])"
    using m3 by (intro loop_last_attempt [where backend = backend and history = h]) simp_all
  finally have result: "callGeminiRetry backend h 3 1000 = (Inl (Error (Some m3)), [2000, 4000])" .
  then have "calls (send_message backend rnd now sid data s) =
     calls s @
     [(ToSocket sid,
       receive_message \<lparr>id_msg = ''error'', sender = System,
                         text_msg = ''AI is currently offline'', timestamp = now\<rparr>)]"
    using ai h by (simp add: send_message_def calls_def emit_def)
  with result show ?thesis by simp
qed




theorem three_transient_failures_witness:
  "calls (send_message
            (scripted [Rejects (Error (Some ''got status: 503 Service Unavailable'')),
                       Rejects (Error (Some ''429 Too Many Requests'')),
                       Rejects (Error (Some ''Internal error 500''))])
            ''k3j'' 42 ''a''
            \<lparr>roomId_data = ''ai_a'', text_data = ''hi'', isAi_data = True,
             history_data = Some [()]\<rparr>
            \<lparr>waitingQueue = [], sockets = [''a'' \<mapsto> [''a'']],
             emitted = ([] :: unit Emission list)\<rparr>) =
     [(ToSocket ''a'',
       receive_message \<lparr>id_msg = ''error'', sender = System,
                         text_msg = ''AI is currently offline'', timestamp = 42\<rparr>)]"
  using three_transient_failures
    [of "\<lparr>roomId_data = ''ai_a'', text_data = ''hi'', isAi_data = True, history_data = Some [()]\<rparr>"
        "[()]"
        "scripted [Rejects (Error (Some ''got status: 503 Service Unavailable'')),
                   Rejects (Error (Some ''429 Too Many Requests'')),
                   Rejects (Error (Some ''Internal error 500''))]"
        "''k3j''" 42 "''a''"
        "\<lparr>waitingQueue = [], sockets = [''a'' \<mapsto> [''a'']],
          emitted = ([] :: unit Emission list)\<rparr>"]
  by (simp add: scripted_def calls_def)

subsection \<open>The connection state machine\<close>

text \<open>Assigning a session with local media starts the handshake and registers the handler.\<close>

lemma mainEffect_connecting:
  "\<not> peerRef st \<Longrightarrow>
   connectionState (mainEffect (Some chatData) (Some myStream) False st) = connecting
   \<and> listener (mainEffect (Some chatData) (Some myStream) False st) = Some chatData"
  by (simp add: mainEffect_def)

text \<open>A payload from the session peer is fed to the negotiation capability.\<close>

lemma peer_signal_fed:
  "listener st = Some chatData \<Longrightarrow> from_in data = peerId chatData \<Longrightarrow>
   peer st = Some p \<Longrightarrow>
   peer (on_signal_received data st) = Some (p\<lparr>signalled := signalled p @ [signal_in data]\<rparr>)"
  by (simp add: on_signal_received_def handleIncomingSignal_def)

text \<open>
  C8 (stale-signal rejection). In every state of the machine, \<open>connecting\<close> and
  \<open>connected\<close> among them, a \<^verbatim>\<open>signal_received\<close> whose sender is not the peer of the
  session the handler was registered for leaves the whole state as it is: nothing is fed
  to the negotiation capability and the connection state does not change.
\<close>

theorem stale_signal_ignored:
  "(\<forall>chatData. listener st = Some chatData \<longrightarrow> from_in data \<noteq> peerId chatData) \<Longrightarrow>
   on_signal_received data st = st"
  by (simp add: on_signal_received_def handleIncomingSignal_def split: option.split)

theorem stale_signal_ignored_witness:
  "connectionState
     (mainEffect (Some \<lparr>roomId = ''room_b_a'', peerId = ''b'', isAi = False, initiator = False\<rparr>)
        (Some ()) False (webrtc_initial :: (nat, unit) WebRTC)) = connecting
   \<and> on_signal_received \<lparr>signal_in = 7, from_in = ''c''\<rparr>
       (mainEffect (Some \<lparr>roomId = ''room_b_a'', peerId = ''b'', isAi = False, initiator = False\<rparr>)
          (Some ()) False (webrtc_initial :: (nat, unit) WebRTC)) =
     mainEffect (Some \<lparr>roomId = ''room_b_a'', peerId = ''b'', isAi = False, initiator = False\<rparr>)
       (Some ()) False (webrtc_initial :: (nat, unit) WebRTC)"
  using stale_signal_ignored
    [of "mainEffect (Some \<lparr>roomId = ''room_b_a'', peerId = ''b'', isAi = False,
                             initiator = False\<rparr>)
           (Some ()) False (webrtc_initial :: (nat, unit) WebRTC)"
        "\<lparr>signal_in = 7, from_in = ''c''\<rparr>"]
  by (simp add: mainEffect_def webrtc_initial_def)

subsection \<open>Tags entered through the form\<close>





end
